theory Spec2Isabelle
  imports Complex_Main "HOL-Library.Sublist" "HOL-Library.Multiset" "HOL-Library.Product_Lexorder"
begin

section \<open>Data model (src/types.ts)\<close>

text \<open>
  A JavaScript \<^verbatim>\<open>number\<close> is idealised as a \<^typ>\<open>real\<close>; \<^verbatim>\<open>NaN\<close> only arises as the
  result of \<^verbatim>\<open>parseFloat\<close> and is modelled there as \<open>None\<close>. A JavaScript string is a
  \<^typ>\<open>string\<close> whose characters are the code units below 256.

  \<^verbatim>\<open>Priority\<close> and \<^verbatim>\<open>Status\<close> are unions of string literals, and the CSV import stores
  whatever text a row carries (an unchecked \<^verbatim>\<open>as Priority\<close>), so both fields are strings.
  The fields \<^verbatim>\<open>id\<close> and \<^verbatim>\<open>notes\<close> are named \<open>task_id\<close> and \<open>task_notes\<close>.
\<close>

record Task =
  task_id :: string
  title :: string
  revenue :: real
  timeTaken :: real
  roi :: real
  priority :: string
  status :: string
  task_notes :: string
  createdAt :: real

text \<open>\<^verbatim>\<open>Partial<Task>\<close>: every field may be absent (\<open>None\<close>).\<close>

record PartialTask =
  p_id :: "string option"
  p_title :: "string option"
  p_revenue :: "real option"
  p_timeTaken :: "real option"
  p_roi :: "real option"
  p_priority :: "string option"
  p_status :: "string option"
  p_notes :: "string option"
  p_createdAt :: "real option"

record AppState =
  tasks :: "Task list"
  lastDeletedTask :: "Task option"
  isUndoVisible :: bool
  isLoading :: bool

datatype DialogType = DAdd | DEdit | DView

record DialogConfig =
  isOpen :: bool
  dtype :: DialogType
  selectedTask :: "Task option"

text \<open>\<^verbatim>\<open>PRIORITY_WEIGHTS\<close>, a record from priority to number.\<close>

definition PRIORITY_WEIGHTS :: "string \<rightharpoonup> nat" where
  "PRIORITY_WEIGHTS = [''High'' \<mapsto> 3, ''Medium'' \<mapsto> 2, ''Low'' \<mapsto> 1]"

section \<open>Task store\<close>

text \<open>The object spread \<^verbatim>\<open>{ ...t, ...data }\<close>: every field present in \<open>data\<close> wins.\<close>

definition spread :: "Task \<Rightarrow> PartialTask \<Rightarrow> Task" where
  "spread t d =
     \<lparr> task_id = (case p_id d of None \<Rightarrow> task_id t | Some v \<Rightarrow> v),
       title = (case p_title d of None \<Rightarrow> title t | Some v \<Rightarrow> v),
       revenue = (case p_revenue d of None \<Rightarrow> revenue t | Some v \<Rightarrow> v),
       timeTaken = (case p_timeTaken d of None \<Rightarrow> timeTaken t | Some v \<Rightarrow> v),
       roi = (case p_roi d of None \<Rightarrow> roi t | Some v \<Rightarrow> v),
       priority = (case p_priority d of None \<Rightarrow> priority t | Some v \<Rightarrow> v),
       status = (case p_status d of None \<Rightarrow> status t | Some v \<Rightarrow> v),
       task_notes = (case p_notes d of None \<Rightarrow> task_notes t | Some v \<Rightarrow> v),
       createdAt = (case p_createdAt d of None \<Rightarrow> createdAt t | Some v \<Rightarrow> v) \<rparr>"

text \<open>
  \<^verbatim>\<open>updateTask\<close> reads the dialog's selected task and the task list, and writes both the
  application state and the dialog configuration.
\<close>

definition updateTask :: "DialogConfig \<Rightarrow> AppState \<Rightarrow> PartialTask \<Rightarrow> AppState \<times> DialogConfig" where
  "updateTask dc s d =
     (case selectedTask dc of
        None \<Rightarrow> (s, dc)
      | Some sel \<Rightarrow>
          (s\<lparr>tasks := map (\<lambda>t. if task_id t = task_id sel then spread t d else t) (tasks s)\<rparr>,
           dc\<lparr>isOpen := False, selectedTask := None\<rparr>))"

definition deleteTask :: "AppState \<Rightarrow> Task \<Rightarrow> AppState" where
  "deleteTask s task =
     s\<lparr>tasks := filter (\<lambda>t. task_id t \<noteq> task_id task) (tasks s),
       lastDeletedTask := Some task,
       isUndoVisible := True\<rparr>"

definition undoDelete :: "AppState \<Rightarrow> AppState" where
  "undoDelete s =
     (case lastDeletedTask s of
        None \<Rightarrow> s
      | Some t \<Rightarrow> s\<lparr>tasks := tasks s @ [t], lastDeletedTask := None, isUndoVisible := False\<rparr>)"

definition closeUndoSnackbar :: "AppState \<Rightarrow> AppState" where
  "closeUndoSnackbar s = s\<lparr>isUndoVisible := False, lastDeletedTask := None\<rparr>"

text \<open>Sample values used to run the operations.\<close>

definition taskA :: Task where
  "taskA = \<lparr> task_id = ''a1'', title = ''A'', revenue = 100, timeTaken = 4, roi = 25,
             priority = ''Low'', status = ''Pending'', task_notes = '''', createdAt = 1000 \<rparr>"

definition taskB :: Task where
  "taskB = \<lparr> task_id = ''b2'', title = ''B'', revenue = 300, timeTaken = 2, roi = 150,
             priority = ''High'', status = ''Completed'', task_notes = ''n'', createdAt = 2000 \<rparr>"

definition taskC :: Task where
  "taskC = \<lparr> task_id = ''c3'', title = ''C'', revenue = 0, timeTaken = 0, roi = 0,
             priority = ''Medium'', status = ''Pending'', task_notes = '''', createdAt = 3000 \<rparr>"

definition noFields :: PartialTask where
  "noFields = \<lparr> p_id = None, p_title = None, p_revenue = None, p_timeTaken = None, p_roi = None,
                p_priority = None, p_status = None, p_notes = None, p_createdAt = None \<rparr>"

definition stateAB :: AppState where
  "stateAB = \<lparr> tasks = [taskA, taskB], lastDeletedTask = None, isUndoVisible = False,
               isLoading = False \<rparr>"

definition editA :: DialogConfig where
  "editA = \<lparr> isOpen = True, dtype = DEdit, selectedTask = Some taskA \<rparr>"

definition dialogClosed :: DialogConfig where
  "dialogClosed = \<lparr> isOpen = False, dtype = DAdd, selectedTask = None \<rparr>"

definition newId :: PartialTask where
  "newId = noFields\<lparr>p_id := Some ''zz''\<rparr>"

definition newTitle :: PartialTask where
  "newTitle = noFields\<lparr>p_title := Some ''A2''\<rparr>"


section \<open>Undo controller\<close>

text \<open>
  The undo timer is a React effect with dependencies \<^verbatim>\<open>[state.isUndoVisible, closeUndoSnackbar]\<close>;
  \<^verbatim>\<open>closeUndoSnackbar\<close> is a \<^verbatim>\<open>useCallback\<close> with no dependencies and never changes. After a
  state update the effect is re-run only if \<^verbatim>\<open>isUndoVisible\<close> differs from its value at the
  previous render: then the previous run's cleanup (\<^verbatim>\<open>clearTimeout\<close>) is executed, and a new
  timeout of 6000 ms is set if the notification is visible. Time is a logical clock in
  milliseconds; \<open>timer\<close> holds the deadline of the pending timeout, if any.
\<close>

record App =
  st :: AppState
  timer :: "nat option"
  clock :: nat

definition undoEffect :: "bool \<Rightarrow> App \<Rightarrow> App" where
  "undoEffect prevVisible a =
     (if isUndoVisible (st a) = prevVisible then a
      else if isUndoVisible (st a) then a\<lparr>timer := Some (clock a + 6000)\<rparr>
      else a\<lparr>timer := None\<rparr>)"

definition commit :: "(AppState \<Rightarrow> AppState) \<Rightarrow> App \<Rightarrow> App" where
  "commit f a = undoEffect (isUndoVisible (st a)) (a\<lparr>st := f (st a)\<rparr>)"

datatype Event = Delete Task | Undo | Dismiss | Wait nat

fun step :: "App \<Rightarrow> Event \<Rightarrow> App" where
  "step a (Delete t) = commit (\<lambda>s. deleteTask s t) a"
| "step a Undo = commit undoDelete a"
| "step a Dismiss = commit closeUndoSnackbar a"
| "step a (Wait d) =
     (case timer a of
        None \<Rightarrow> a\<lparr>clock := clock a + d\<rparr>
      | Some deadline \<Rightarrow>
          if deadline \<le> clock a + d
          then (commit closeUndoSnackbar (a\<lparr>clock := deadline, timer := None\<rparr>))\<lparr>clock := clock a + d\<rparr>
          else a\<lparr>clock := clock a + d\<rparr>)"

definition run :: "App \<Rightarrow> Event list \<Rightarrow> App" where
  "run a es = foldl step a es"

definition appAB :: App where
  "appAB = \<lparr> st = stateAB, timer = None, clock = 0 \<rparr>"

section \<open>Initialisation\<close>

text \<open>
  \<^verbatim>\<open>JSON.parse\<close> is a parameter \<open>jsonParse\<close>: \<open>None\<close> when it throws. \<^verbatim>\<open>generateId\<close> and
  \<^verbatim>\<open>Date.now\<close> are parameters too: \<open>gen k\<close> is the result of the \<open>k\<close>-th call of
  \<^verbatim>\<open>generateId\<close>, \<open>now k\<close> the clock value read at the \<open>k\<close>-th place. \<^verbatim>\<open>if (saved)\<close> is
  false for \<^verbatim>\<open>null\<close> and for the empty string.
\<close>

datatype error = SyntaxError

definition initialTasks :: "(nat \<Rightarrow> string) \<Rightarrow> (nat \<Rightarrow> real) \<Rightarrow> Task list" where
  "initialTasks gen now =
     [ \<lparr> task_id = gen 0, title = ''Enterprise Sales Deck'', revenue = 15000, timeTaken = 20,
         roi = 750, priority = ''High'', status = ''In Progress'',
         task_notes = ''Key account review.'', createdAt = now 0 \<rparr>,
       \<lparr> task_id = gen 1, title = ''Lead Outreach Phase 1'', revenue = 2500, timeTaken = 10,
         roi = 250, priority = ''Medium'', status = ''Completed'',
         task_notes = ''Standard outreach.'', createdAt = now 1 - 5000 \<rparr>,
       \<lparr> task_id = gen 2, title = ''Admin & Reporting'', revenue = 0, timeTaken = 5,
         roi = 0, priority = ''Low'', status = ''Pending'',
         task_notes = ''Monthly cleanup.'', createdAt = now 2 - 10000 \<rparr> ]"

definition loadTasks ::
  "(string \<Rightarrow> Task list option) \<Rightarrow> (nat \<Rightarrow> string) \<Rightarrow> (nat \<Rightarrow> real) \<Rightarrow> string option \<Rightarrow>
   AppState \<Rightarrow> error + AppState" where
  "loadTasks jsonParse gen now saved prev =
     (case saved of
        None \<Rightarrow> Inr (prev\<lparr>tasks := initialTasks gen now, isLoading := False\<rparr>)
      | Some blob \<Rightarrow>
          if blob = [] then Inr (prev\<lparr>tasks := initialTasks gen now, isLoading := False\<rparr>)
          else (case jsonParse blob of
                  None \<Rightarrow> Inl SyntaxError
                | Some ts \<Rightarrow> Inr (prev\<lparr>tasks := ts, isLoading := False\<rparr>)))"

definition state0 :: AppState where
  "state0 = \<lparr> tasks = [], lastDeletedTask = None, isUndoVisible = False, isLoading = True \<rparr>"

definition rejectAll :: "string \<Rightarrow> Task list option" where
  "rejectAll blob = None"

text \<open>A parser that accepts the empty array only, as \<^verbatim>\<open>JSON.parse\<close> does on these inputs.\<close>

definition sampleParse :: "string \<Rightarrow> Task list option" where
  "sampleParse blob = (if blob = ''[]'' then Some [] else None)"

definition sampleIds :: "nat \<Rightarrow> string" where
  "sampleIds k = replicate (Suc k) CHR ''x''"

definition sampleNow :: "nat \<Rightarrow> real" where
  "sampleNow k = 1000000"

section \<open>ROI calculator\<close>

text \<open>
  Modelled from the spec: the scale constant of \<^verbatim>\<open>calculateROI\<close>, which is imported from
  \<^verbatim>\<open>./utils/helpers\<close>, not among the source files. The spec leaves the constant open; the
  seed tasks of \<^verbatim>\<open>loadTasks\<close> (15000 / 20 stored with roi 750, 2500 / 10 with roi 250) fix
  it at 1.
\<close>

definition ROI_SCALE :: real where
  "ROI_SCALE = 1"

text \<open>
  Modelled from the spec: \<^verbatim>\<open>calculateROI\<close> is imported from \<^verbatim>\<open>./utils/helpers\<close>, which is not
  among the source files. The spec defines it as 0 when \<open>timeTaken = 0\<close> and as
  \<open>revenue / timeTaken\<close> times the scale constant otherwise.
\<close>

definition calculateROI :: "real \<Rightarrow> real \<Rightarrow> real" where
  "calculateROI rv tm = (if tm = 0 then 0 else rv / tm * ROI_SCALE)"

section \<open>Strings\<close>

definition LF :: char where "LF = CHR 0x0A"
definition COMMA :: char where "COMMA = CHR '',''"
definition DQUOTE :: char where "DQUOTE = CHR 0x22"

text \<open>The white space and line terminators that \<^verbatim>\<open>String.prototype.trim\<close> removes, below 256.\<close>

definition isWhiteSpace :: "char \<Rightarrow> bool" where
  "isWhiteSpace c =
     (c \<in> set [CHR 0x09, CHR 0x0A, CHR 0x0B, CHR 0x0C, CHR 0x0D, CHR 0x20, CHR 0xA0])"

definition trim :: "string \<Rightarrow> string" where
  "trim s = rev (dropWhile isWhiteSpace (rev (dropWhile isWhiteSpace s)))"

text \<open>\<^verbatim>\<open>s.split(c)\<close> for a one-character separator: never empty, \<^verbatim>\<open>''.split(c)\<close> is \<^verbatim>\<open>['']\<close>.\<close>

fun split_on :: "char \<Rightarrow> string \<Rightarrow> string list" where
  "split_on c [] = [[]]"
| "split_on c (x # xs) =
     (if x = c then [] # split_on c xs
      else (case split_on c xs of [] \<Rightarrow> [[x]] | w # ws \<Rightarrow> (x # w) # ws))"

text \<open>\<^verbatim>\<open>s.replace(/"/g, '')\<close>\<close>

definition removeQuotes :: "string \<Rightarrow> string" where
  "removeQuotes s = filter (\<lambda>c. c \<noteq> DQUOTE) s"

text \<open>\<^verbatim>\<open>toLowerCase\<close> on code units below 256: A-Z and the capital letters of Latin-1.\<close>

definition lowerChar :: "char \<Rightarrow> char" where
  "lowerChar c =
     (let n = (of_char c :: nat)
      in if (65 \<le> n \<and> n \<le> 90) \<or> (192 \<le> n \<and> n \<le> 222 \<and> n \<noteq> 215) then char_of (n + 32) else c)"

definition toLowerCase :: "string \<Rightarrow> string" where
  "toLowerCase s = map lowerChar s"

text \<open>\<^verbatim>\<open>s.includes(q)\<close>, named \<open>includes_js\<close>: \<open>q\<close> occurs in \<open>s\<close> at some position.\<close>

primrec includes_js :: "string \<Rightarrow> string \<Rightarrow> bool" where
  "includes_js [] q = (q = [])"
| "includes_js (x # xs) q = (prefix q (x # xs) \<or> includes_js xs q)"

section \<open>CSV import\<close>

text \<open>
  \<^verbatim>\<open>parseFloat\<close> is a parameter \<open>pf\<close>, \<open>None\<close> for \<^verbatim>\<open>NaN\<close>. \<^verbatim>\<open>x || 0\<close> is 0 for \<^verbatim>\<open>NaN\<close> and
  for 0; \<^verbatim>\<open>s || d\<close> is \<open>d\<close> for the empty string and for \<^verbatim>\<open>undefined\<close>.
\<close>

definition numOr0 :: "real option \<Rightarrow> real" where
  "numOr0 x = (case x of None \<Rightarrow> 0 | Some v \<Rightarrow> if v = 0 then 0 else v)"

definition strOr :: "string \<Rightarrow> string \<Rightarrow> string" where
  "strOr s d = (if s = [] then d else s)"

definition part6 :: "string list \<Rightarrow> string" where
  "part6 parts = (if 6 < length parts then strOr (parts ! 6) [] else [])"

text \<open>The object pushed for row \<open>i\<close> when \<open>k\<close> tasks have been pushed before it.\<close>

definition rowTask ::
  "(string \<Rightarrow> real option) \<Rightarrow> (nat \<Rightarrow> string) \<Rightarrow> (nat \<Rightarrow> real) \<Rightarrow> nat \<Rightarrow> nat \<Rightarrow> string list \<Rightarrow> Task" where
  "rowTask pf gen now k i parts =
     \<lparr> task_id = gen k,
       title = removeQuotes (parts ! 0),
       revenue = numOr0 (pf (parts ! 1)),
       timeTaken = numOr0 (pf (parts ! 2)),
       roi = calculateROI (numOr0 (pf (parts ! 1))) (numOr0 (pf (parts ! 2))),
       priority = strOr (parts ! 4) ''Low'',
       status = strOr (parts ! 5) ''Pending'',
       task_notes = removeQuotes (part6 parts),
       createdAt = now i - real i * 1000 \<rparr>"

function importLoop ::
  "(string \<Rightarrow> real option) \<Rightarrow> (nat \<Rightarrow> string) \<Rightarrow> (nat \<Rightarrow> real) \<Rightarrow> string list \<Rightarrow> nat \<Rightarrow>
   Task list \<Rightarrow> Task list" where
  "importLoop pf gen now lines i newTasks =
     (if i < length lines then
        (if trim (lines ! i) = [] then importLoop pf gen now lines (i + 1) newTasks
         else if 6 \<le> length (split_on COMMA (trim (lines ! i)))
         then importLoop pf gen now lines (i + 1)
                (newTasks @ [rowTask pf gen now (length newTasks) i
                               (split_on COMMA (trim (lines ! i)))])
         else importLoop pf gen now lines (i + 1) newTasks)
      else newTasks)"
  by pat_completeness auto
termination
  by (relation "measure (\<lambda>(pf, gen, now, lines, i, newTasks). length lines - i)") auto

declare importLoop.simps [simp del]

definition parseCSV ::
  "(string \<Rightarrow> real option) \<Rightarrow> (nat \<Rightarrow> string) \<Rightarrow> (nat \<Rightarrow> real) \<Rightarrow> string \<Rightarrow> Task list" where
  "parseCSV pf gen now text = importLoop pf gen now (split_on LF text) 1 []"

definition handleImportCSV ::
  "(string \<Rightarrow> real option) \<Rightarrow> (nat \<Rightarrow> string) \<Rightarrow> (nat \<Rightarrow> real) \<Rightarrow> string \<Rightarrow> AppState \<Rightarrow> AppState" where
  "handleImportCSV pf gen now text prev =
     (if 0 < length (parseCSV pf gen now text)
      then prev\<lparr>tasks := parseCSV pf gen now text @ tasks prev\<rparr>
      else prev)"

text \<open>
  The import as the spec words it: after the header, a row is accepted when it is not blank
  and has at least 6 comma-separated fields; every accepted row gives one task.
\<close>

definition acceptedRow :: "string \<Rightarrow> bool" where
  "acceptedRow raw = (trim raw \<noteq> [] \<and> 6 \<le> length (split_on COMMA (trim raw)))"

fun rowsFrom ::
  "(string \<Rightarrow> real option) \<Rightarrow> (nat \<Rightarrow> string) \<Rightarrow> (nat \<Rightarrow> real) \<Rightarrow> nat \<Rightarrow> nat \<Rightarrow> string list \<Rightarrow>
   Task list" where
  "rowsFrom pf gen now k i [] = []"
| "rowsFrom pf gen now k i (raw # rest) =
     (if acceptedRow raw
      then rowTask pf gen now k i (split_on COMMA (trim raw)) # rowsFrom pf gen now (Suc k) (Suc i) rest
      else rowsFrom pf gen now k (Suc i) rest)"

section \<open>View pipeline\<close>

text \<open>
  The weight of a priority, read from \<^verbatim>\<open>PRIORITY_WEIGHTS\<close>; a priority outside the record
  (the import can store one) is given weight 0.
\<close>

definition priorityWeight :: "string \<Rightarrow> nat" where
  "priorityWeight p = (case PRIORITY_WEIGHTS p of None \<Rightarrow> 0 | Some w \<Rightarrow> w)"

text \<open>
  Modelled from the spec: the sort key of \<^verbatim>\<open>sortTasks\<close>, which is imported from
  \<^verbatim>\<open>./utils/helpers\<close>, not among the source files: priority weight first
  (High > Medium > Low), \<open>createdAt\<close> descending second. Pairs are ordered
  lexicographically, and both components are negated to sort descending.
\<close>

definition sortKey :: "Task \<Rightarrow> int \<times> real" where
  "sortKey t = (- int (priorityWeight (priority t)), - createdAt t)"

text \<open>
  Modelled from the spec: \<^verbatim>\<open>sortTasks\<close> is imported from \<^verbatim>\<open>./utils/helpers\<close>, which is not
  among the source files. The spec asks for a stable sort over the filtered tasks by the key
  above; \<open>sort_key\<close> is insertion sort, which is stable.
\<close>

definition sortTasks :: "Task list \<Rightarrow> Task list" where
  "sortTasks ts = sort_key sortKey ts"

text \<open>The order the spec asks for: \<open>a\<close> may stand before \<open>b\<close>.\<close>

definition mayPrecede :: "Task \<Rightarrow> Task \<Rightarrow> bool" where
  "mayPrecede a b =
     (priorityWeight (priority b) < priorityWeight (priority a)
      \<or> (priorityWeight (priority a) = priorityWeight (priority b) \<and> createdAt b \<le> createdAt a))"

definition matchesFilter :: "string \<Rightarrow> string \<Rightarrow> string \<Rightarrow> Task \<Rightarrow> bool" where
  "matchesFilter searchQuery filterStatus filterPriority t =
     (includes_js (toLowerCase (title t)) (toLowerCase searchQuery)
      \<and> (filterStatus = ''All'' \<or> status t = filterStatus)
      \<and> (filterPriority = ''All'' \<or> priority t = filterPriority))"

definition filterTasks :: "string \<Rightarrow> string \<Rightarrow> string \<Rightarrow> Task list \<Rightarrow> Task list" where
  "filterTasks searchQuery filterStatus filterPriority ts =
     filter (matchesFilter searchQuery filterStatus filterPriority) ts"

definition displayTasks :: "string \<Rightarrow> string \<Rightarrow> string \<Rightarrow> AppState \<Rightarrow> Task list" where
  "displayTasks searchQuery filterStatus filterPriority s =
     sortTasks (filterTasks searchQuery filterStatus filterPriority (tasks s))"

text \<open>The filter as the spec words it.\<close>

definition keepSpec :: "string \<Rightarrow> string \<Rightarrow> string \<Rightarrow> Task \<Rightarrow> bool" where
  "keepSpec searchQuery filterStatus filterPriority t =
     ((sublist (toLowerCase searchQuery) (toLowerCase (title t)) \<or> searchQuery = [])
      \<and> (filterStatus = ''All'' \<or> filterStatus = status t)
      \<and> (filterPriority = ''All'' \<or> filterPriority = priority t))"

text \<open>\<^verbatim>\<open>rows.join(c)\<close> for a one-character separator.\<close>

fun joinWith :: "char \<Rightarrow> string list \<Rightarrow> string" where
  "joinWith c [] = []"
| "joinWith c [x] = x"
| "joinWith c (x # y # ys) = x @ c # joinWith c (y # ys)"

text \<open>The second half of \<open>trim\<close>: white space removed at the end only.\<close>

definition rtrim :: "string \<Rightarrow> string" where
  "rtrim s = rev (dropWhile isWhiteSpace (rev s))"

section \<open>CSV export\<close>

text \<open>
  \<^verbatim>\<open>exportTasksToCSV\<close> is imported from \<^verbatim>\<open>./utils/helpers\<close>, which is not among the source
  files; the four definitions below model it from the spec. The model returns the text of the
  file. Number to text is a parameter \<open>ns\<close>.
\<close>

text \<open>
  Modelled from the spec: a field of \<^verbatim>\<open>exportTasksToCSV\<close>'s output. The spec asks for a field
  with a comma or a quote to be escaped or quoted; here it is put in quotes, its quotes doubled.
\<close>

definition csvField :: "string \<Rightarrow> string" where
  "csvField s =
     (if COMMA \<in> set s \<or> DQUOTE \<in> set s
      then DQUOTE # concat (map (\<lambda>c. if c = DQUOTE then [DQUOTE, DQUOTE] else [c]) s) @ [DQUOTE]
      else s)"

text \<open>
  Modelled from the spec: the header line of \<^verbatim>\<open>exportTasksToCSV\<close>'s output, in the column
  layout \<open>title, revenue, timeTaken, <unused>, priority, status, notes\<close> that the spec gives
  for both import and export; the unused fourth column is taken to be \<open>roi\<close>.
\<close>

definition csvHeader :: string where
  "csvHeader = ''title,revenue,timeTaken,roi,priority,status,notes''"

text \<open>
  Modelled from the spec: the line \<^verbatim>\<open>exportTasksToCSV\<close> writes for one task, its fields
  joined by commas in the layout of the header.
\<close>

definition exportRow :: "(real \<Rightarrow> string) \<Rightarrow> Task \<Rightarrow> string" where
  "exportRow ns t =
     joinWith COMMA
       [csvField (title t), ns (revenue t), ns (timeTaken t), ns (roi t), priority t, status t,
        csvField (task_notes t)]"

text \<open>
  Modelled from the spec: \<^verbatim>\<open>exportTasksToCSV\<close>, imported from \<^verbatim>\<open>./utils/helpers\<close>, which is not
  among the source files: one header line, then one line per task.
\<close>

definition exportTasksToCSV :: "(real \<Rightarrow> string) \<Rightarrow> Task list \<Rightarrow> string" where
  "exportTasksToCSV ns ts = joinWith LF (csvHeader # map (exportRow ns) ts)"

text \<open>
  The tasks that survive export followed by import: the title has no comma, quote or line
  break and does not start with white space; the notes have no line break; priority and status
  are values of their types; the numbers print without comma or line break, and revenue and
  time parse back to themselves.
\<close>

definition roundTrippable :: "(string \<Rightarrow> real option) \<Rightarrow> (real \<Rightarrow> string) \<Rightarrow> Task \<Rightarrow> bool" where
  "roundTrippable pf ns t =
     (COMMA \<notin> set (title t) \<and> DQUOTE \<notin> set (title t) \<and> LF \<notin> set (title t)
      \<and> (title t = [] \<or> \<not> isWhiteSpace (hd (title t)))
      \<and> LF \<notin> set (task_notes t)
      \<and> priority t \<in> set [''High'', ''Medium'', ''Low'']
      \<and> status t \<in> set [''Pending'', ''In Progress'', ''Completed'']
      \<and> COMMA \<notin> set (ns (revenue t)) \<and> LF \<notin> set (ns (revenue t))
      \<and> COMMA \<notin> set (ns (timeTaken t)) \<and> LF \<notin> set (ns (timeTaken t))
      \<and> COMMA \<notin> set (ns (roi t)) \<and> LF \<notin> set (ns (roi t))
      \<and> numOr0 (pf (ns (revenue t))) = revenue t
      \<and> numOr0 (pf (ns (timeTaken t))) = timeTaken t)"

section \<open>Sample environment\<close>

text \<open>
  Instances of the parameters, for running the import and the export: a number printer and a
  number reader that agree with \<^verbatim>\<open>String(x)\<close> and \<^verbatim>\<open>parseFloat\<close> on the natural numbers written
  in decimal digits and on text that starts with a letter other than \<open>I\<close> (which
  \<^verbatim>\<open>parseFloat\<close> reads as \<^verbatim>\<open>NaN\<close>), and a CSV file with a header, two rows of at least six
  fields and one row of three.
\<close>

definition digitChar :: "nat \<Rightarrow> char" where
  "digitChar d = ''0123456789'' ! d"

function natToString :: "nat \<Rightarrow> string" where
  "natToString n = (if n < 10 then [digitChar n] else natToString (n div 10) @ [digitChar (n mod 10)])"
  by pat_completeness auto
termination
  by (relation "measure (\<lambda>n. n)") auto

declare natToString.simps [simp del]

definition sampleNumToString :: "real \<Rightarrow> string" where
  "sampleNumToString x = natToString (nat \<lfloor>x\<rfloor>)"

definition isDigit :: "char \<Rightarrow> bool" where
  "isDigit c = (c \<in> set ''0123456789'')"

definition sampleParseFloat :: "string \<Rightarrow> real option" where
  "sampleParseFloat s =
     (if s \<noteq> [] \<and> list_all isDigit s
      then Some (real (foldl (\<lambda>n c. 10 * n + (of_char c - 48)) 0 s))
      else None)"

definition sampleRow1 :: string where
  "sampleRow1 = ''Alpha,100,4,25,High,Pending,first''"

definition sampleRow2 :: string where
  "sampleRow2 = [DQUOTE] @ ''Beta'' @ [DQUOTE] @ '',x,0,,,Completed''"

definition sampleRow3 :: string where
  "sampleRow3 = ''only,three,columns''"

definition sampleCSV :: string where
  "sampleCSV = joinWith LF [csvHeader, sampleRow1, sampleRow2, sampleRow3]"

definition taskComma :: Task where
  "taskComma = taskA\<lparr>title := ''a,b''\<rparr>"

definition taskA2 :: Task where
  "taskA2 = taskA\<lparr>task_id := ''a9'', title := ''A again''\<rparr>"

section \<open>Update\<close>

lemma spread_keeps_id: "p_id d = None \<Longrightarrow> task_id (spread t d) = task_id t"
  by (simp add: spread_def)

lemma spread_keeps_createdAt: "p_createdAt d = None \<Longrightarrow> createdAt (spread t d) = createdAt t"
  by (simp add: spread_def)

lemma updateTask_tasks:
  "selectedTask dc = Some sel \<Longrightarrow>
   tasks (fst (updateTask dc s d)) =
     map (\<lambda>t. if task_id t = task_id sel then spread t d else t) (tasks s)"
  by (simp add: updateTask_def)

lemma updateTask_nth:
  "selectedTask dc = Some sel \<Longrightarrow> i < length (tasks s) \<Longrightarrow>
   tasks (fst (updateTask dc s d)) ! i =
     (if task_id (tasks s ! i) = task_id sel then spread (tasks s ! i) d else tasks s ! i)"
  by (simp add: updateTask_tasks)

text \<open>
  C1, as stated, fails: the partial is spread over the matched task without any guard, so a
  partial that carries an \<open>id\<close> replaces the id of the matched task.
\<close>

theorem updateTask_alters_id:
  "selectedTask editA = Some taskA
   \<and> task_id (tasks stateAB ! 0) = task_id taskA
   \<and> task_id (tasks (fst (updateTask editA stateAB newId)) ! 0) \<noteq> task_id (tasks stateAB ! 0)"
  by (simp add: updateTask_def editA_def stateAB_def newId_def noFields_def spread_def taskA_def)

text \<open>
  C1 (amended): with no task selected, update changes nothing. With a task selected, the list
  keeps its length; every task with another id is unchanged; every task with the selected id
  becomes the spread of the partial over it, so \<open>id\<close> and \<open>createdAt\<close> are unchanged
  whenever the partial carries neither of them.
\<close>

theorem updateTask_frame:
  "(selectedTask dc0 = None \<longrightarrow> updateTask dc0 s d = (s, dc0))
   \<and> (selectedTask dc = Some sel \<longrightarrow>
        length (tasks (fst (updateTask dc s d))) = length (tasks s)
        \<and> (\<forall>i < length (tasks s).
              (task_id (tasks s ! i) \<noteq> task_id sel \<longrightarrow>
                 tasks (fst (updateTask dc s d)) ! i = tasks s ! i)
              \<and> (task_id (tasks s ! i) = task_id sel \<longrightarrow>
                   tasks (fst (updateTask dc s d)) ! i = spread (tasks s ! i) d
                   \<and> (p_id d = None \<longrightarrow>
                        task_id (tasks (fst (updateTask dc s d)) ! i) = task_id (tasks s ! i))
                   \<and> (p_createdAt d = None \<longrightarrow>
                        createdAt (tasks (fst (updateTask dc s d)) ! i) = createdAt (tasks s ! i)))))"
proof (intro conjI impI allI)
  assume "selectedTask dc0 = None"
  then show "updateTask dc0 s d = (s, dc0)"
    by (simp add: updateTask_def)
next
  assume "selectedTask dc = Some sel"
  then show "length (tasks (fst (updateTask dc s d))) = length (tasks s)"
    by (simp add: updateTask_tasks)
next
  fix i
  assume "selectedTask dc = Some sel" "i < length (tasks s)" "task_id (tasks s ! i) \<noteq> task_id sel"
  then show "tasks (fst (updateTask dc s d)) ! i = tasks s ! i"
    by (simp add: updateTask_nth)
next
  fix i
  assume "selectedTask dc = Some sel" "i < length (tasks s)" "task_id (tasks s ! i) = task_id sel"
  then show "tasks (fst (updateTask dc s d)) ! i = spread (tasks s ! i) d"
    by (simp add: updateTask_nth)
next
  fix i
  assume "selectedTask dc = Some sel" "i < length (tasks s)" "task_id (tasks s ! i) = task_id sel"
    "p_id d = None"
  then show "task_id (tasks (fst (updateTask dc s d)) ! i) = task_id (tasks s ! i)"
    by (simp add: updateTask_nth spread_keeps_id)
next
  fix i
  assume "selectedTask dc = Some sel" "i < length (tasks s)" "task_id (tasks s ! i) = task_id sel"
    "p_createdAt d = None"
  then show "createdAt (tasks (fst (updateTask dc s d)) ! i) = createdAt (tasks s ! i)"
    by (simp add: updateTask_nth spread_keeps_createdAt)
qed

theorem updateTask_frame_witness:
  "selectedTask dialogClosed = None \<and> selectedTask editA = Some taskA
   \<and> p_id newTitle = None \<and> p_createdAt newTitle = None
   \<and> updateTask dialogClosed stateAB newTitle = (stateAB, dialogClosed)
   \<and> tasks (fst (updateTask editA stateAB newTitle)) = [taskA\<lparr>title := ''A2''\<rparr>, taskB]
   \<and> task_id (tasks (fst (updateTask editA stateAB newTitle)) ! 0) = ''a1''
   \<and> createdAt (tasks (fst (updateTask editA stateAB newTitle)) ! 0) = 1000
   \<and> tasks (fst (updateTask editA stateAB newTitle)) ! 1 = taskB"
proof -
  have sel: "selectedTask dialogClosed = None" "selectedTask editA = Some taskA"
    by (simp_all add: dialogClosed_def editA_def)
  have len: "length (tasks stateAB) = 2" "tasks stateAB ! 0 = taskA" "tasks stateAB ! 1 = taskB"
    by (simp_all add: stateAB_def)
  have ids: "task_id taskA = ''a1''" "task_id taskB = ''b2''" "createdAt taskA = 1000"
    by (simp_all add: taskA_def taskB_def)
  have part: "p_id newTitle = None" "p_createdAt newTitle = None"
    by (simp_all add: newTitle_def noFields_def)
  have sp: "spread taskA newTitle = taskA\<lparr>title := ''A2''\<rparr>"
    by (simp add: spread_def newTitle_def noFields_def taskA_def)
  note fr = updateTask_frame [of dialogClosed stateAB newTitle editA taskA]
  have noop: "updateTask dialogClosed stateAB newTitle = (stateAB, dialogClosed)"
    using fr sel by simp
  have l2: "length (tasks (fst (updateTask editA stateAB newTitle))) = 2"
    using fr sel len by simp
  have n0: "tasks (fst (updateTask editA stateAB newTitle)) ! 0 = taskA\<lparr>title := ''A2''\<rparr>"
    using fr sel len sp by simp
  have n1: "tasks (fst (updateTask editA stateAB newTitle)) ! 1 = taskB"
    using fr sel len ids by simp
  have all: "tasks (fst (updateTask editA stateAB newTitle)) = [taskA\<lparr>title := ''A2''\<rparr>, taskB]"
    using l2 n0 n1 by (simp add: list_eq_iff_nth_eq less_Suc_eq numeral_2_eq_2)
  show ?thesis
    using sel part noop all ids by simp
qed

section \<open>Delete and undo\<close>

lemma filter_other_ids_mset:
  "distinct (map task_id ts) \<Longrightarrow> t \<in> set ts \<Longrightarrow>
   mset (filter (\<lambda>u. task_id u \<noteq> task_id t) ts) + {#t#} = mset ts"
proof (induction ts)
  case Nil
  then show ?case by simp
next
  case (Cons a ts)
  show ?case
  proof (cases "a = t")
    case True
    with Cons.prems have "\<forall>u \<in> set ts. task_id u \<noteq> task_id t"
      by (auto simp: image_iff)
    then have "filter (\<lambda>u. task_id u \<noteq> task_id t) ts = ts"
      by (simp add: filter_id_conv)
    with True show ?thesis by simp
  next
    case False
    with Cons.prems have t: "t \<in> set ts" and d: "distinct (map task_id ts)"
      and "task_id a \<noteq> task_id t"
      by (auto simp: image_iff)
    with Cons.IH show ?thesis by simp
  qed
qed

text \<open>
  C3: for a task \<open>t\<close> of the collection, delete followed by undo gives the collection without
  the tasks of \<open>t\<close>'s id, with \<open>t\<close> itself (all its fields, its id) appended at the end; the
  last-deleted slot is empty and the notification hidden. When ids are unique the result holds
  exactly the tasks of the original collection. Undo with an empty slot changes nothing.
\<close>

theorem delete_then_undo:
  "(t \<in> set (tasks s) \<longrightarrow>
      tasks (undoDelete (deleteTask s t)) = filter (\<lambda>u. task_id u \<noteq> task_id t) (tasks s) @ [t]
      \<and> t \<in> set (tasks (undoDelete (deleteTask s t)))
      \<and> lastDeletedTask (undoDelete (deleteTask s t)) = None
      \<and> isUndoVisible (undoDelete (deleteTask s t)) = False
      \<and> (distinct (map task_id (tasks s)) \<longrightarrow>
            mset (tasks (undoDelete (deleteTask s t))) = mset (tasks s)))
   \<and> (lastDeletedTask s0 = None \<longrightarrow> undoDelete s0 = s0)"
proof (intro conjI impI)
  show "tasks (undoDelete (deleteTask s t)) = filter (\<lambda>u. task_id u \<noteq> task_id t) (tasks s) @ [t]"
    by (simp add: undoDelete_def deleteTask_def)
  then show "t \<in> set (tasks (undoDelete (deleteTask s t)))"
    by simp
  show "lastDeletedTask (undoDelete (deleteTask s t)) = None"
    by (simp add: undoDelete_def deleteTask_def)
  show "isUndoVisible (undoDelete (deleteTask s t)) = False"
    by (simp add: undoDelete_def deleteTask_def)
next
  assume "t \<in> set (tasks s)" "distinct (map task_id (tasks s))"
  then show "mset (tasks (undoDelete (deleteTask s t))) = mset (tasks s)"
    using filter_other_ids_mset [of "tasks s" t]
    by (simp add: undoDelete_def deleteTask_def)
next
  assume "lastDeletedTask s0 = None"
  then show "undoDelete s0 = s0"
    by (simp add: undoDelete_def)
qed

theorem delete_then_undo_witness:
  "taskA \<in> set (tasks stateAB) \<and> distinct (map task_id (tasks stateAB))
   \<and> lastDeletedTask stateAB = None
   \<and> tasks (undoDelete (deleteTask stateAB taskA)) = [taskB, taskA]
   \<and> lastDeletedTask (undoDelete (deleteTask stateAB taskA)) = None
   \<and> isUndoVisible (undoDelete (deleteTask stateAB taskA)) = False
   \<and> mset (tasks (undoDelete (deleteTask stateAB taskA))) = mset (tasks stateAB)
   \<and> undoDelete stateAB = stateAB"
  using delete_then_undo [of taskA stateAB stateAB]
  by (simp add: stateAB_def taskA_def taskB_def)

text \<open>
  C10: delete called with a task whose id no task of the collection has leaves the collection
  as it is, stores the task in the last-deleted slot and shows the notification; the undo that
  follows appends that task, which was never in the collection.
\<close>

theorem delete_absent_id:
  "\<forall>u \<in> set (tasks s). task_id u \<noteq> task_id t \<Longrightarrow>
   tasks (deleteTask s t) = tasks s
   \<and> lastDeletedTask (deleteTask s t) = Some t
   \<and> isUndoVisible (deleteTask s t)
   \<and> t \<notin> set (tasks s)
   \<and> tasks (undoDelete (deleteTask s t)) = tasks s @ [t]"
  by (auto simp: deleteTask_def undoDelete_def filter_id_conv)

theorem delete_absent_id_witness:
  "task_id taskA \<noteq> task_id taskC \<and> task_id taskB \<noteq> task_id taskC
   \<and> tasks (deleteTask stateAB taskC) = [taskA, taskB]
   \<and> lastDeletedTask (deleteTask stateAB taskC) = Some taskC
   \<and> isUndoVisible (deleteTask stateAB taskC)
   \<and> tasks (undoDelete (deleteTask stateAB taskC)) = [taskA, taskB, taskC]"
proof -
  have ids: "task_id taskA \<noteq> task_id taskC" "task_id taskB \<noteq> task_id taskC"
    by (simp_all add: taskA_def taskB_def taskC_def)
  then have h: "\<forall>u \<in> set (tasks stateAB). task_id u \<noteq> task_id taskC"
    by (simp add: stateAB_def)
  show ?thesis
    using ids delete_absent_id [OF h] by (simp add: stateAB_def)
qed

section \<open>Undo timer\<close>

lemma enter_visible_starts_timer:
  "\<not> isUndoVisible (st a) \<Longrightarrow> timer (step a (Delete t)) = Some (clock a + 6000)"
  by (simp add: commit_def undoEffect_def deleteTask_def)

lemma delete_while_visible_keeps_timer:
  "isUndoVisible (st a) \<Longrightarrow> timer (step a (Delete t)) = timer a"
  by (simp add: commit_def undoEffect_def deleteTask_def)

lemma dismiss_cancels_timer:
  "isUndoVisible (st a) \<Longrightarrow> timer (step a Dismiss) = None \<and> \<not> isUndoVisible (st (step a Dismiss))"
  by (simp add: commit_def undoEffect_def closeUndoSnackbar_def)

lemma undo_cancels_timer:
  "isUndoVisible (st a) \<Longrightarrow> lastDeletedTask (st a) \<noteq> None \<Longrightarrow>
   timer (step a Undo) = None \<and> \<not> isUndoVisible (st (step a Undo))"
  by (auto simp: commit_def undoEffect_def undoDelete_def)

text \<open>
  C2 fails on the code. Task A is deleted at time 0 and task B at time 5000, while the
  notification for A is still visible: \<open>isUndoVisible\<close> does not change, the effect is not
  re-run, and the timeout set for A stays due at 6000. At 6000 it fires and discards B, 1000 ms
  after B was deleted.
\<close>

theorem stale_timeout_discards_later_task:
  "lastDeletedTask (st (run appAB [Delete taskA, Wait 5000, Delete taskB])) = Some taskB
   \<and> clock (run appAB [Delete taskA, Wait 5000, Delete taskB]) = 5000
   \<and> timer (run appAB [Delete taskA, Wait 5000, Delete taskB]) = Some 6000
   \<and> lastDeletedTask (st (run appAB [Delete taskA, Wait 5000, Delete taskB, Wait 1000])) = None
   \<and> isUndoVisible (st (run appAB [Delete taskA, Wait 5000, Delete taskB, Wait 1000])) = False
   \<and> tasks (st (run appAB [Delete taskA, Wait 5000, Delete taskB, Wait 1000])) = []
   \<and> clock (run appAB [Delete taskA, Wait 5000, Delete taskB, Wait 1000]) = 6000"
  by (simp add: run_def appAB_def stateAB_def commit_def undoEffect_def deleteTask_def
      closeUndoSnackbar_def taskA_def taskB_def)

section \<open>Initialisation with a persisted blob\<close>

text \<open>
  C9, as stated, fails: two blobs that \<^verbatim>\<open>JSON.parse\<close> rejects are treated differently. The
  empty string is falsy, so the seed set is loaded; any other rejected blob makes
  \<^verbatim>\<open>JSON.parse\<close> throw.
\<close>

theorem loadTasks_two_policies:
  "loadTasks rejectAll sampleIds sampleNow (Some '''') state0
     = Inr (state0\<lparr>tasks := initialTasks sampleIds sampleNow, isLoading := False\<rparr>)
   \<and> loadTasks rejectAll sampleIds sampleNow (Some ''{'') state0 = Inl SyntaxError
   \<and> rejectAll '''' = None \<and> rejectAll ''{'' = None"
  by (simp add: loadTasks_def rejectAll_def)

text \<open>
  C9 (amended): for a non-empty blob that \<^verbatim>\<open>JSON.parse\<close> rejects, initialisation propagates the
  parse failure and the state is not updated; for a non-empty blob that parses, the parsed list
  is adopted whole; the empty string, like an absent blob, gives the seed set.
\<close>

theorem loadTasks_policy:
  "(blob \<noteq> [] \<and> jsonParse blob = None \<longrightarrow>
      loadTasks jsonParse gen now (Some blob) prev = Inl SyntaxError)
   \<and> (blob' \<noteq> [] \<and> jsonParse blob' = Some ts \<longrightarrow>
      loadTasks jsonParse gen now (Some blob') prev = Inr (prev\<lparr>tasks := ts, isLoading := False\<rparr>))
   \<and> loadTasks jsonParse gen now (Some []) prev
       = Inr (prev\<lparr>tasks := initialTasks gen now, isLoading := False\<rparr>)
   \<and> loadTasks jsonParse gen now None prev
       = Inr (prev\<lparr>tasks := initialTasks gen now, isLoading := False\<rparr>)"
  by (simp add: loadTasks_def)

theorem loadTasks_policy_witness:
  "''{'' \<noteq> [] \<and> sampleParse ''{'' = None \<and> ''[]'' \<noteq> [] \<and> sampleParse ''[]'' = Some []
   \<and> loadTasks sampleParse sampleIds sampleNow (Some ''{'') state0 = Inl SyntaxError
   \<and> loadTasks sampleParse sampleIds sampleNow (Some ''[]'') state0
       = Inr (state0\<lparr>tasks := [], isLoading := False\<rparr>)
   \<and> map title (tasks (projr (loadTasks sampleParse sampleIds sampleNow (Some []) state0)))
       = [''Enterprise Sales Deck'', ''Lead Outreach Phase 1'', ''Admin & Reporting'']"
proof -
  have h: "''{'' \<noteq> []" "sampleParse ''{'' = None" "''[]'' \<noteq> []" "sampleParse ''[]'' = Some []"
    by (simp_all add: sampleParse_def)
  show ?thesis
    using h loadTasks_policy [of "''{''" sampleParse sampleIds sampleNow state0 "''[]''" "[]"]
    by (simp add: initialTasks_def)
qed

section \<open>ROI\<close>

lemma seeds_roi:
  "\<forall>t \<in> set (initialTasks gen now). roi t = calculateROI (revenue t) (timeTaken t)"
  by (simp add: initialTasks_def calculateROI_def ROI_SCALE_def)

text \<open>
  C5: for \<open>revenue \<ge> 0\<close> and \<open>timeTaken > 0\<close>, \<open>calculateROI\<close> is \<open>revenue / timeTaken\<close> times
  the scale constant; for \<open>timeTaken = 0\<close> it is 0.
\<close>

theorem calculateROI_spec:
  "(0 \<le> rv \<and> 0 < tm \<longrightarrow> calculateROI rv tm = rv / tm * ROI_SCALE)
   \<and> calculateROI rv 0 = 0"
  by (simp add: calculateROI_def)

theorem calculateROI_spec_witness:
  "(0::real) \<le> 15000 \<and> (0::real) < 20 \<and> calculateROI 15000 20 = 15000 / 20 * ROI_SCALE
   \<and> calculateROI 15000 20 = 750 \<and> calculateROI 15000 0 = 0"
  using calculateROI_spec [of 15000 20] by (simp add: ROI_SCALE_def)

section \<open>View pipeline: filter\<close>

lemma includes_js_sublist: "includes_js s q \<longleftrightarrow> sublist q s"
  by (induction s) (auto simp: sublist_Cons_right)

lemma matchesFilter_keepSpec: "matchesFilter q fs fp t \<longleftrightarrow> keepSpec q fs fp t"
  by (auto simp: matchesFilter_def keepSpec_def includes_js_sublist toLowerCase_def)

lemma filterTasks_keepSpec: "filterTasks q fs fp ts = filter (keepSpec q fs fp) ts"
  by (simp add: filterTasks_def matchesFilter_keepSpec [abs_def])

lemma mset_sortTasks: "mset (sortTasks ts) = mset ts"
  by (simp add: sortTasks_def)

lemma lower_b: "toLowerCase ''b'' = ''b''"
  by code_simp

lemma lower_B: "toLowerCase ''B'' = ''b''"
  by code_simp

lemma lower_A: "toLowerCase ''A'' = ''a''"
  by code_simp

text \<open>
  C6: the filter keeps exactly the tasks that satisfy the spec's condition, in their order;
  the displayed list holds exactly the kept tasks; and for the collection of a task titled A
  with priority Low and a task titled B with priority High, priority filter High (no search
  text, status filter All) displays exactly the task titled B.
\<close>

theorem displayTasks_filter:
  "filterTasks q fs fp ts = filter (keepSpec q fs fp) ts
   \<and> (t \<in> set (filterTasks q fs fp ts) \<longleftrightarrow> t \<in> set ts \<and> keepSpec q fs fp t)
   \<and> mset (displayTasks q fs fp s) = mset (filter (keepSpec q fs fp) (tasks s))
   \<and> (t \<in> set (displayTasks q fs fp s) \<longleftrightarrow> t \<in> set (tasks s) \<and> keepSpec q fs fp t)
   \<and> (title a = ''A'' \<and> priority a = ''Low'' \<and> title b = ''B'' \<and> priority b = ''High'' \<longrightarrow>
        displayTasks [] ''All'' ''High'' (s\<lparr>tasks := [a, b]\<rparr>) = [b])"
proof (intro conjI impI)
  show f: "filterTasks q fs fp ts = filter (keepSpec q fs fp) ts"
    by (rule filterTasks_keepSpec)
  show "t \<in> set (filterTasks q fs fp ts) \<longleftrightarrow> t \<in> set ts \<and> keepSpec q fs fp t"
    by (simp add: f)
  show m: "mset (displayTasks q fs fp s) = mset (filter (keepSpec q fs fp) (tasks s))"
    by (simp only: displayTasks_def mset_sortTasks filterTasks_keepSpec)
  have "set (displayTasks q fs fp s) = set (filter (keepSpec q fs fp) (tasks s))"
    using m by (rule mset_eq_setD)
  then show "t \<in> set (displayTasks q fs fp s) \<longleftrightarrow> t \<in> set (tasks s) \<and> keepSpec q fs fp t"
    by simp
next
  assume "title a = ''A'' \<and> priority a = ''Low'' \<and> title b = ''B'' \<and> priority b = ''High''"
  then show "displayTasks [] ''All'' ''High'' (s\<lparr>tasks := [a, b]\<rparr>) = [b]"
    by (simp add: displayTasks_def filterTasks_def matchesFilter_def toLowerCase_def sortTasks_def)
qed

theorem displayTasks_filter_witness:
  "title taskA = ''A'' \<and> priority taskA = ''Low'' \<and> title taskB = ''B'' \<and> priority taskB = ''High''
   \<and> displayTasks [] ''All'' ''High'' (stateAB\<lparr>tasks := [taskA, taskB]\<rparr>) = [taskB]
   \<and> filterTasks ''b'' ''Completed'' ''All'' [taskA, taskB] = [taskB]"
proof -
  have h: "title taskA = ''A'' \<and> priority taskA = ''Low'' \<and> title taskB = ''B'' \<and> priority taskB = ''High''"
    by (simp add: taskA_def taskB_def)
  have k: "keepSpec ''b'' ''Completed'' ''All'' taskB" "\<not> keepSpec ''b'' ''Completed'' ''All'' taskA"
    by (simp_all add: keepSpec_def taskA_def taskB_def lower_b lower_A lower_B)
  show ?thesis
    using h k displayTasks_filter [of "''b''" "''Completed''" "''All''" "[taskA, taskB]" taskA stateAB taskA taskB]
    by simp
qed

section \<open>View pipeline: sort\<close>

lemma sortKey_le: "sortKey a \<le> sortKey b \<longleftrightarrow> mayPrecede a b"
  by (auto simp: sortKey_def mayPrecede_def less_eq_prod_def)

lemma sorted_sortTasks: "sorted_wrt mayPrecede (sortTasks ts)"
proof -
  have "sorted (map sortKey (sortTasks ts))"
    by (simp add: sortTasks_def)
  then show ?thesis
    by (simp add: sorted_map sortKey_le [abs_def])
qed

lemma sortTasks_stable_key:
  "filter (\<lambda>t. sortKey t = k) (sortTasks ts) = filter (\<lambda>t. sortKey t = k) ts"
  by (simp add: sortTasks_def sort_key_stable)

lemma sortTasks_stable:
  "filter (\<lambda>t. priority t = p \<and> createdAt t = c) (sortTasks ts)
     = filter (\<lambda>t. priority t = p \<and> createdAt t = c) ts"
proof -
  let ?k = "(- int (priorityWeight p), - c)"
  have eq: "(\<lambda>t. priority t = p \<and> createdAt t = c)
      = (\<lambda>t. sortKey t = ?k \<and> (priority t = p \<and> createdAt t = c))"
    by (auto simp: sortKey_def)
  have "filter (\<lambda>t. priority t = p \<and> createdAt t = c) (sortTasks ts)
      = filter (\<lambda>t. priority t = p \<and> createdAt t = c) (filter (\<lambda>t. sortKey t = ?k) (sortTasks ts))"
    by (subst eq) (simp add: conj_commute)
  also have "\<dots> = filter (\<lambda>t. priority t = p \<and> createdAt t = c) (filter (\<lambda>t. sortKey t = ?k) ts)"
    by (simp only: sortTasks_stable_key)
  also have "\<dots> = filter (\<lambda>t. priority t = p \<and> createdAt t = c) ts"
    by (subst (2) eq) (simp add: conj_commute)
  finally show ?thesis .
qed

lemma sortTasks_idem: "sortTasks (sortTasks ts) = sortTasks ts"
  by (simp add: sortTasks_def sort_key_id_if_sorted)

lemma weights:
  "priorityWeight ''Low'' = 1" "priorityWeight ''Medium'' = 2" "priorityWeight ''High'' = 3"
  by (simp_all add: priorityWeight_def PRIORITY_WEIGHTS_def)

text \<open>
  C7: \<open>sortTasks\<close> permutes its input, orders it by priority weight (High above Medium above
  Low) and then by \<open>createdAt\<close> descending, and is stable: the tasks of any one priority and
  \<open>createdAt\<close> come out in the order they went in. Sorting a sorted list changes nothing, so
  repeated invocations give the same order.
\<close>

theorem sortTasks_stable_sort:
  "mset (sortTasks ts) = mset ts
   \<and> sorted_wrt mayPrecede (sortTasks ts)
   \<and> priorityWeight ''Low'' < priorityWeight ''Medium''
   \<and> priorityWeight ''Medium'' < priorityWeight ''High''
   \<and> filter (\<lambda>t. priority t = p \<and> createdAt t = c) (sortTasks ts)
       = filter (\<lambda>t. priority t = p \<and> createdAt t = c) ts
   \<and> sortTasks (sortTasks ts) = sortTasks ts"
  by (simp only: mset_sortTasks sorted_sortTasks sortTasks_stable sortTasks_idem weights) simp

theorem sortTasks_stable_sort_witness:
  "sortTasks [taskA, taskB, taskA2, taskC] = [taskB, taskC, taskA, taskA2]
   \<and> sortTasks [taskA2, taskB, taskA, taskC] = [taskB, taskC, taskA2, taskA]
   \<and> filter (\<lambda>t. priority t = ''Low'' \<and> createdAt t = 1000) (sortTasks [taskA2, taskB, taskA, taskC])
       = [taskA2, taskA]"
  using sortTasks_stable_sort [of "[taskA2, taskB, taskA, taskC]" "''Low''" 1000]
  by (simp add: sortTasks_def sortKey_def weights taskA_def taskB_def taskC_def taskA2_def
      less_eq_prod_def)

section \<open>CSV import\<close>

lemma split_on_not_Nil: "split_on c s \<noteq> []"
  by (induction s) (auto split: list.splits)

lemma split_on_no_sep: "c \<notin> set f \<Longrightarrow> split_on c f = [f]"
  by (induction f) auto

lemma split_on_field: "c \<notin> set f \<Longrightarrow> split_on c (f @ c # r) = f # split_on c r"
  by (induction f) (auto split: list.splits)

lemma joinWith_Cons: "rows \<noteq> [] \<Longrightarrow> joinWith c (r # rows) = r @ c # joinWith c rows"
  by (cases rows) auto

lemma split_on_joinWith:
  "rows \<noteq> [] \<Longrightarrow> \<forall>r \<in> set rows. c \<notin> set r \<Longrightarrow> split_on c (joinWith c rows) = rows"
proof (induction rows)
  case Nil
  then show ?case by simp
next
  case (Cons r rows)
  show ?case
  proof (cases "rows = []")
    case True
    with Cons.prems show ?thesis by (simp add: split_on_no_sep)
  next
    case False
    with Cons show ?thesis
      by (simp add: joinWith_Cons split_on_field)
  qed
qed

lemma importLoop_rowsFrom:
  "importLoop pf gen now lines i acc = acc @ rowsFrom pf gen now (length acc) i (drop i lines)"
proof (induction pf gen now lines i acc rule: importLoop.induct)
  case (1 pf gen now lines i newTasks)
  show ?case
  proof (cases "i < length lines")
    case False
    then show ?thesis by (subst importLoop.simps) simp
  next
    case True
    then have d: "drop i lines = lines ! i # drop (Suc i) lines"
      by (simp add: Cons_nth_drop_Suc)
    show ?thesis
    proof (cases "trim (lines ! i) = []")
      case blank: True
      with True 1(1) show ?thesis
        by (subst importLoop.simps) (simp add: d acceptedRow_def)
    next
      case nonblank: False
      show ?thesis
      proof (cases "6 \<le> length (split_on COMMA (trim (lines ! i)))")
        case long: True
        with True nonblank 1(2) show ?thesis
          by (subst importLoop.simps) (simp add: d acceptedRow_def)
      next
        case short: False
        with True nonblank 1(3) show ?thesis
          by (subst importLoop.simps) (simp add: d acceptedRow_def)
      qed
    qed
  qed
qed

lemma parseCSV_rowsFrom:
  "parseCSV pf gen now text = rowsFrom pf gen now 0 1 (drop 1 (split_on LF text))"
  by (simp add: parseCSV_def importLoop_rowsFrom)

lemma length_rowsFrom:
  "length (rowsFrom pf gen now k i rows) = length (filter acceptedRow rows)"
  by (induction rows arbitrary: k i) auto

lemma map_rowsFrom:
  "(\<And>k i parts. f (rowTask pf gen now k i parts) = g parts) \<Longrightarrow>
   map f (rowsFrom pf gen now k i rows)
     = map (\<lambda>raw. g (split_on COMMA (trim raw))) (filter acceptedRow rows)"
  by (induction rows arbitrary: k i) auto

lemma roi_rowsFrom:
  "t \<in> set (rowsFrom pf gen now k i rows) \<Longrightarrow> roi t = calculateROI (revenue t) (timeTaken t)"
  by (induction rows arbitrary: k i) (auto simp: rowTask_def split: if_splits)

lemma title_rowsFrom:
  "t \<in> set (rowsFrom pf gen now k i rows) \<Longrightarrow> DQUOTE \<notin> set (title t) \<and> DQUOTE \<notin> set (task_notes t)"
  by (induction rows arbitrary: k i) (auto simp: rowTask_def removeQuotes_def split: if_splits)

lemma removeQuotes_surrounding:
  "DQUOTE \<notin> set w \<Longrightarrow> removeQuotes (DQUOTE # w @ [DQUOTE]) = w"
  by (auto simp: removeQuotes_def filter_id_conv)

lemma handleImportCSV_tasks:
  "tasks (handleImportCSV pf gen now text prev) = parseCSV pf gen now text @ tasks prev"
  by (simp add: handleImportCSV_def)

lemma three_columns_rejected: "length (split_on COMMA (trim r)) = 3 \<Longrightarrow> \<not> acceptedRow r"
  by (simp add: acceptedRow_def)

lemma parseCSV_joined:
  assumes "\<forall>r \<in> set (h # rows). LF \<notin> set r"
  shows "parseCSV pf gen now (joinWith LF (h # rows)) = rowsFrom pf gen now 0 1 rows"
proof -
  have "split_on LF (joinWith LF (h # rows)) = h # rows"
    using assms by (intro split_on_joinWith) auto
  then show ?thesis
    by (simp add: parseCSV_rowsFrom)
qed

text \<open>
  C4: the import skips the first line; of the remaining lines it accepts those that are not
  blank and have at least 6 comma-separated fields, and drops the others; each accepted row
  gives one task, whose title and notes are the row's fields without any quote character
  (so surrounding quotes are stripped), whose revenue and time are the parsed second and third
  field, 0 when parsing fails, and whose roi is \<open>calculateROI\<close> of the two. The new tasks
  are prepended to the collection. A file of a header line, two accepted rows and a row of 3
  columns gives 2 new tasks.
\<close>

theorem parseCSV_rows:
  "parseCSV pf gen now text = rowsFrom pf gen now 0 1 (drop 1 (split_on LF text))
   \<and> length (parseCSV pf gen now text) = length (filter acceptedRow (drop 1 (split_on LF text)))
   \<and> (acceptedRow raw \<longleftrightarrow> trim raw \<noteq> [] \<and> 6 \<le> length (split_on COMMA (trim raw)))
   \<and> map title (parseCSV pf gen now text)
       = map (\<lambda>raw. removeQuotes (split_on COMMA (trim raw) ! 0))
           (filter acceptedRow (drop 1 (split_on LF text)))
   \<and> map revenue (parseCSV pf gen now text)
       = map (\<lambda>raw. numOr0 (pf (split_on COMMA (trim raw) ! 1)))
           (filter acceptedRow (drop 1 (split_on LF text)))
   \<and> map timeTaken (parseCSV pf gen now text)
       = map (\<lambda>raw. numOr0 (pf (split_on COMMA (trim raw) ! 2)))
           (filter acceptedRow (drop 1 (split_on LF text)))
   \<and> map task_notes (parseCSV pf gen now text)
       = map (\<lambda>raw. removeQuotes (part6 (split_on COMMA (trim raw))))
           (filter acceptedRow (drop 1 (split_on LF text)))
   \<and> numOr0 None = 0
   \<and> (DQUOTE \<notin> set w \<longrightarrow> removeQuotes (DQUOTE # w @ [DQUOTE]) = w)
   \<and> (\<forall>t \<in> set (parseCSV pf gen now text).
         roi t = calculateROI (revenue t) (timeTaken t)
         \<and> DQUOTE \<notin> set (title t) \<and> DQUOTE \<notin> set (task_notes t))
   \<and> tasks (handleImportCSV pf gen now text prev) = parseCSV pf gen now text @ tasks prev
   \<and> (LF \<notin> set h \<and> LF \<notin> set r1 \<and> LF \<notin> set r2 \<and> LF \<notin> set r3
        \<and> acceptedRow r1 \<and> acceptedRow r2 \<and> length (split_on COMMA (trim r3)) = 3 \<longrightarrow>
        length (parseCSV pf gen now (joinWith LF [h, r1, r2, r3])) = 2)"
proof (intro conjI impI ballI)
  show "parseCSV pf gen now text = rowsFrom pf gen now 0 1 (drop 1 (split_on LF text))"
    by (rule parseCSV_rowsFrom)
  show "length (parseCSV pf gen now text) = length (filter acceptedRow (drop 1 (split_on LF text)))"
    by (simp only: parseCSV_rowsFrom length_rowsFrom)
  show "acceptedRow raw \<longleftrightarrow> trim raw \<noteq> [] \<and> 6 \<le> length (split_on COMMA (trim raw))"
    by (simp add: acceptedRow_def)
  show "map title (parseCSV pf gen now text)
       = map (\<lambda>raw. removeQuotes (split_on COMMA (trim raw) ! 0))
           (filter acceptedRow (drop 1 (split_on LF text)))"
    unfolding parseCSV_rowsFrom by (rule map_rowsFrom) (simp add: rowTask_def)
  show "map revenue (parseCSV pf gen now text)
       = map (\<lambda>raw. numOr0 (pf (split_on COMMA (trim raw) ! 1)))
           (filter acceptedRow (drop 1 (split_on LF text)))"
    unfolding parseCSV_rowsFrom by (rule map_rowsFrom) (simp add: rowTask_def)
  show "map timeTaken (parseCSV pf gen now text)
       = map (\<lambda>raw. numOr0 (pf (split_on COMMA (trim raw) ! 2)))
           (filter acceptedRow (drop 1 (split_on LF text)))"
    unfolding parseCSV_rowsFrom by (rule map_rowsFrom) (simp add: rowTask_def)
  show "map task_notes (parseCSV pf gen now text)
       = map (\<lambda>raw. removeQuotes (part6 (split_on COMMA (trim raw))))
           (filter acceptedRow (drop 1 (split_on LF text)))"
    unfolding parseCSV_rowsFrom by (rule map_rowsFrom) (simp add: rowTask_def)
  show "numOr0 None = 0"
    by (simp add: numOr0_def)
  show "tasks (handleImportCSV pf gen now text prev) = parseCSV pf gen now text @ tasks prev"
    by (rule handleImportCSV_tasks)
next
  assume "DQUOTE \<notin> set w"
  then show "removeQuotes (DQUOTE # w @ [DQUOTE]) = w"
    by (rule removeQuotes_surrounding)
next
  fix t assume t: "t \<in> set (parseCSV pf gen now text)"
  then show "roi t = calculateROI (revenue t) (timeTaken t)"
    unfolding parseCSV_rowsFrom by (rule roi_rowsFrom)
  from t show "DQUOTE \<notin> set (title t)" "DQUOTE \<notin> set (task_notes t)"
    unfolding parseCSV_rowsFrom by (auto dest: title_rowsFrom)
next
  assume a: "LF \<notin> set h \<and> LF \<notin> set r1 \<and> LF \<notin> set r2 \<and> LF \<notin> set r3
        \<and> acceptedRow r1 \<and> acceptedRow r2 \<and> length (split_on COMMA (trim r3)) = 3"
  then have "\<forall>r \<in> set (h # [r1, r2, r3]). LF \<notin> set r"
    by simp
  then have "parseCSV pf gen now (joinWith LF (h # [r1, r2, r3])) = rowsFrom pf gen now 0 1 [r1, r2, r3]"
    by (rule parseCSV_joined)
  moreover have "\<not> acceptedRow r3"
    using a by (simp add: three_columns_rejected)
  ultimately show "length (parseCSV pf gen now (joinWith LF [h, r1, r2, r3])) = 2"
    using a by (simp add: length_rowsFrom)
qed

lemma sample_rows:
  "LF \<notin> set csvHeader" "LF \<notin> set sampleRow1" "LF \<notin> set sampleRow2" "LF \<notin> set sampleRow3"
  "acceptedRow sampleRow1" "acceptedRow sampleRow2" "length (split_on COMMA (trim sampleRow3)) = 3"
  by code_simp+

lemma sample_import:
  "map title (parseCSV sampleParseFloat sampleIds sampleNow sampleCSV) = [''Alpha'', ''Beta'']"
  "map revenue (parseCSV sampleParseFloat sampleIds sampleNow sampleCSV) = [100, 0]"
  "map timeTaken (parseCSV sampleParseFloat sampleIds sampleNow sampleCSV) = [4, 0]"
  "map roi (parseCSV sampleParseFloat sampleIds sampleNow sampleCSV) = [25, 0]"
  "map priority (parseCSV sampleParseFloat sampleIds sampleNow sampleCSV) = [''High'', ''Low'']"
  "map status (parseCSV sampleParseFloat sampleIds sampleNow sampleCSV) = [''Pending'', ''Completed'']"
  "map task_notes (parseCSV sampleParseFloat sampleIds sampleNow sampleCSV) = [''first'', []]"
  by code_simp+

theorem parseCSV_rows_witness:
  "LF \<notin> set csvHeader \<and> LF \<notin> set sampleRow1 \<and> LF \<notin> set sampleRow2 \<and> LF \<notin> set sampleRow3
   \<and> acceptedRow sampleRow1 \<and> acceptedRow sampleRow2
   \<and> length (split_on COMMA (trim sampleRow3)) = 3
   \<and> DQUOTE \<notin> set ''Beta'' \<and> removeQuotes (DQUOTE # ''Beta'' @ [DQUOTE]) = ''Beta''
   \<and> length (parseCSV sampleParseFloat sampleIds sampleNow sampleCSV) = 2
   \<and> map title (parseCSV sampleParseFloat sampleIds sampleNow sampleCSV) = [''Alpha'', ''Beta'']
   \<and> map revenue (parseCSV sampleParseFloat sampleIds sampleNow sampleCSV) = [100, 0]
   \<and> map roi (parseCSV sampleParseFloat sampleIds sampleNow sampleCSV) = [25, 0]
   \<and> list_all (\<lambda>t. roi t = calculateROI (revenue t) (timeTaken t))
         (parseCSV sampleParseFloat sampleIds sampleNow sampleCSV)
   \<and> map title (tasks (handleImportCSV sampleParseFloat sampleIds sampleNow sampleCSV stateAB))
       = [''Alpha'', ''Beta'', ''A'', ''B'']"
proof -
  have q: "DQUOTE \<notin> set ''Beta''"
    by (simp add: DQUOTE_def)
  note r = parseCSV_rows [of sampleParseFloat sampleIds sampleNow sampleCSV sampleRow1 "''Beta''"
      stateAB csvHeader sampleRow1 sampleRow2 sampleRow3]
  have c: "sampleCSV = joinWith LF [csvHeader, sampleRow1, sampleRow2, sampleRow3]"
    by (simp only: sampleCSV_def)
  have len: "length (parseCSV sampleParseFloat sampleIds sampleNow sampleCSV) = 2"
    using r sample_rows unfolding c by blast
  have strip: "removeQuotes (DQUOTE # ''Beta'' @ [DQUOTE]) = ''Beta''"
    using r q by blast
  have "\<forall>t \<in> set (parseCSV sampleParseFloat sampleIds sampleNow sampleCSV).
         roi t = calculateROI (revenue t) (timeTaken t)"
    using r by blast
  then have roi: "list_all (\<lambda>t. roi t = calculateROI (revenue t) (timeTaken t))
         (parseCSV sampleParseFloat sampleIds sampleNow sampleCSV)"
    by (simp only: list_all_iff)
  have prep: "tasks (handleImportCSV sampleParseFloat sampleIds sampleNow sampleCSV stateAB)
      = parseCSV sampleParseFloat sampleIds sampleNow sampleCSV @ tasks stateAB"
    using r by blast
  have old: "map title (tasks stateAB) = [''A'', ''B'']"
    by (simp add: stateAB_def taskA_def taskB_def)
  have titles: "map title (tasks (handleImportCSV sampleParseFloat sampleIds sampleNow sampleCSV stateAB))
       = [''Alpha'', ''Beta'', ''A'', ''B'']"
    by (simp only: prep map_append sample_import old append.simps)
  show ?thesis
    using sample_rows q len strip roi titles sample_import(1,2,4) by blast
qed

section \<open>Export followed by import\<close>

lemma not_ws_COMMA: "\<not> isWhiteSpace COMMA"
  by (simp add: isWhiteSpace_def COMMA_def)

lemma rtrim_field: "rtrim (a @ COMMA # b) = a @ COMMA # rtrim b"
  by (simp add: rtrim_def dropWhile_append not_ws_COMMA)

lemma trim_row:
  assumes "f = [] \<or> \<not> isWhiteSpace (hd f)"
  shows "trim (f @ COMMA # b) = f @ COMMA # rtrim b"
proof -
  have "dropWhile isWhiteSpace (f @ COMMA # b) = f @ COMMA # b"
    using assms by (cases f) (auto simp: not_ws_COMMA)
  then have "trim (f @ COMMA # b) = rtrim (f @ COMMA # b)"
    by (simp only: trim_def rtrim_def)
  then show ?thesis
    by (simp only: rtrim_field)
qed

lemma LF_csvField: "LF \<notin> set s \<Longrightarrow> LF \<notin> set (csvField s)"
  by (auto simp: csvField_def LF_def DQUOTE_def split: if_splits)

lemma csvField_plain: "COMMA \<notin> set s \<Longrightarrow> DQUOTE \<notin> set s \<Longrightarrow> csvField s = s"
  by (simp add: csvField_def)

lemma choices_plain:
  "p \<in> set [''High'', ''Medium'', ''Low''] \<Longrightarrow> COMMA \<notin> set p \<and> LF \<notin> set p \<and> p \<noteq> []"
  "q \<in> set [''Pending'', ''In Progress'', ''Completed''] \<Longrightarrow> COMMA \<notin> set q \<and> LF \<notin> set q \<and> q \<noteq> []"
  by (auto simp: COMMA_def LF_def)

lemma exportRow_parts:
  assumes "roundTrippable pf ns t"
  shows "split_on COMMA (trim (exportRow ns t))
     = title t # ns (revenue t) # ns (timeTaken t) # ns (roi t) # priority t # status t
         # split_on COMMA (rtrim (csvField (task_notes t)))"
proof -
  from assms have t: "COMMA \<notin> set (title t)" "DQUOTE \<notin> set (title t)"
    "title t = [] \<or> \<not> isWhiteSpace (hd (title t))"
    and n: "COMMA \<notin> set (ns (revenue t))" "COMMA \<notin> set (ns (timeTaken t))" "COMMA \<notin> set (ns (roi t))"
    and p: "COMMA \<notin> set (priority t)" and q: "COMMA \<notin> set (status t)"
    using choices_plain(1) [of "priority t"] choices_plain(2) [of "status t"] by (simp_all add: roundTrippable_def)
  have "trim (exportRow ns t)
      = title t @ COMMA # rtrim (ns (revenue t) @ COMMA # ns (timeTaken t) @ COMMA # ns (roi t)
          @ COMMA # priority t @ COMMA # status t @ COMMA # csvField (task_notes t))"
    using t by (simp add: exportRow_def csvField_plain trim_row)
  also have "\<dots> = title t @ COMMA # ns (revenue t) @ COMMA # ns (timeTaken t) @ COMMA # ns (roi t)
          @ COMMA # priority t @ COMMA # status t @ COMMA # rtrim (csvField (task_notes t))"
    by (simp only: rtrim_field)
  finally show ?thesis
    using t n p q by (simp add: split_on_field)
qed

lemma exportRow_accepted:
  assumes "roundTrippable pf ns t"
  shows "acceptedRow (exportRow ns t)"
proof -
  have "6 \<le> length (split_on COMMA (trim (exportRow ns t)))"
    by (simp add: exportRow_parts [OF assms])
  moreover have "trim (exportRow ns t) \<noteq> []"
    using exportRow_parts [OF assms] by auto
  ultimately show ?thesis
    by (simp add: acceptedRow_def)
qed

lemma exportRow_rowTask:
  assumes "roundTrippable pf ns t"
  shows "title (rowTask pf gen now k i (split_on COMMA (trim (exportRow ns t)))) = title t"
    and "revenue (rowTask pf gen now k i (split_on COMMA (trim (exportRow ns t)))) = revenue t"
    and "timeTaken (rowTask pf gen now k i (split_on COMMA (trim (exportRow ns t)))) = timeTaken t"
    and "priority (rowTask pf gen now k i (split_on COMMA (trim (exportRow ns t)))) = priority t"
    and "status (rowTask pf gen now k i (split_on COMMA (trim (exportRow ns t)))) = status t"
proof -
  from assms have t: "DQUOTE \<notin> set (title t)"
    and r: "numOr0 (pf (ns (revenue t))) = revenue t" "numOr0 (pf (ns (timeTaken t))) = timeTaken t"
    and p: "priority t \<noteq> []" "status t \<noteq> []"
    using choices_plain(1) [of "priority t"] choices_plain(2) [of "status t"] by (simp_all add: roundTrippable_def)
  note parts = exportRow_parts [OF assms]
  show "title (rowTask pf gen now k i (split_on COMMA (trim (exportRow ns t)))) = title t"
    using t by (auto simp: parts rowTask_def removeQuotes_def filter_id_conv)
  show "revenue (rowTask pf gen now k i (split_on COMMA (trim (exportRow ns t)))) = revenue t"
    using r by (simp add: parts rowTask_def)
  show "timeTaken (rowTask pf gen now k i (split_on COMMA (trim (exportRow ns t)))) = timeTaken t"
    using r by (simp add: parts rowTask_def)
  show "priority (rowTask pf gen now k i (split_on COMMA (trim (exportRow ns t)))) = priority t"
    using p by (simp add: parts rowTask_def strOr_def)
  show "status (rowTask pf gen now k i (split_on COMMA (trim (exportRow ns t)))) = status t"
    using p by (simp add: parts rowTask_def strOr_def)
qed

lemma LF_exportRow:
  assumes "roundTrippable pf ns t"
  shows "LF \<notin> set (exportRow ns t)"
proof -
  from assms have "LF \<notin> set (title t)" "COMMA \<notin> set (title t)" "DQUOTE \<notin> set (title t)"
    "LF \<notin> set (csvField (task_notes t))"
    "LF \<notin> set (ns (revenue t))" "LF \<notin> set (ns (timeTaken t))" "LF \<notin> set (ns (roi t))"
    "LF \<notin> set (priority t)" "LF \<notin> set (status t)"
    using choices_plain(1) [of "priority t"] choices_plain(2) [of "status t"]
    by (simp_all add: roundTrippable_def LF_csvField)
  then show ?thesis
    by (simp add: exportRow_def csvField_plain LF_def COMMA_def)
qed

lemma rowsFrom_export:
  assumes "\<forall>t \<in> set ts. roundTrippable pf ns t"
  shows "length (rowsFrom pf gen now k i (map (exportRow ns) ts)) = length ts
    \<and> map title (rowsFrom pf gen now k i (map (exportRow ns) ts)) = map title ts
    \<and> map revenue (rowsFrom pf gen now k i (map (exportRow ns) ts)) = map revenue ts
    \<and> map timeTaken (rowsFrom pf gen now k i (map (exportRow ns) ts)) = map timeTaken ts
    \<and> map priority (rowsFrom pf gen now k i (map (exportRow ns) ts)) = map priority ts
    \<and> map status (rowsFrom pf gen now k i (map (exportRow ns) ts)) = map status ts"
  using assms
proof (induction ts arbitrary: k i)
  case Nil
  then show ?case by simp
next
  case (Cons t ts)
  then have rt: "roundTrippable pf ns t" and rest: "\<forall>t \<in> set ts. roundTrippable pf ns t"
    by simp_all
  show ?case
    using Cons.IH [OF rest, of "Suc k" "Suc i"]
    by (simp add: exportRow_accepted [OF rt] exportRow_rowTask [OF rt])
qed

lemma parseCSV_export:
  assumes "\<forall>t \<in> set ts. roundTrippable pf ns t"
  shows "parseCSV pf gen now (exportTasksToCSV ns ts) = rowsFrom pf gen now 0 1 (map (exportRow ns) ts)"
proof -
  have "LF \<notin> set csvHeader"
    by (simp add: csvHeader_def LF_def)
  then have "\<forall>r \<in> set (csvHeader # map (exportRow ns) ts). LF \<notin> set r"
    using assms by (auto simp: LF_exportRow)
  then show ?thesis
    unfolding exportTasksToCSV_def by (rule parseCSV_joined)
qed

text \<open>
  C8, as stated, fails: a title with a comma is exported in quotes, and the import splits the
  line at every comma, so the title comes back cut at its comma.
\<close>

theorem export_import_loses_comma_title:
  "map title (parseCSV sampleParseFloat sampleIds sampleNow
       (exportTasksToCSV sampleNumToString [taskComma])) = [''a'']
   \<and> map title [taskComma] = [''a,b'']"
  by code_simp

text \<open>
  C8 (amended): for a collection of tasks that are all \<open>roundTrippable\<close>, importing the
  exported text gives as many tasks as were exported, with the same title, revenue, timeTaken,
  priority and status, in the same order.
\<close>

theorem export_import_roundtrip:
  assumes "\<forall>t \<in> set ts. roundTrippable pf ns t"
  shows "length (parseCSV pf gen now (exportTasksToCSV ns ts)) = length ts
    \<and> map title (parseCSV pf gen now (exportTasksToCSV ns ts)) = map title ts
    \<and> map revenue (parseCSV pf gen now (exportTasksToCSV ns ts)) = map revenue ts
    \<and> map timeTaken (parseCSV pf gen now (exportTasksToCSV ns ts)) = map timeTaken ts
    \<and> map priority (parseCSV pf gen now (exportTasksToCSV ns ts)) = map priority ts
    \<and> map status (parseCSV pf gen now (exportTasksToCSV ns ts)) = map status ts"
  unfolding parseCSV_export [OF assms] using assms by (rule rowsFrom_export)

lemma sample_roundTrippable:
  "\<forall>t \<in> set [taskA, taskB]. roundTrippable sampleParseFloat sampleNumToString t"
  by code_simp

theorem export_import_roundtrip_witness:
  "roundTrippable sampleParseFloat sampleNumToString taskA
   \<and> roundTrippable sampleParseFloat sampleNumToString taskB
   \<and> length (parseCSV sampleParseFloat sampleIds sampleNow
        (exportTasksToCSV sampleNumToString [taskA, taskB])) = 2
   \<and> map title (parseCSV sampleParseFloat sampleIds sampleNow
        (exportTasksToCSV sampleNumToString [taskA, taskB])) = [''A'', ''B'']
   \<and> map revenue (parseCSV sampleParseFloat sampleIds sampleNow
        (exportTasksToCSV sampleNumToString [taskA, taskB])) = [100, 300]
   \<and> map timeTaken (parseCSV sampleParseFloat sampleIds sampleNow
        (exportTasksToCSV sampleNumToString [taskA, taskB])) = [4, 2]
   \<and> map priority (parseCSV sampleParseFloat sampleIds sampleNow
        (exportTasksToCSV sampleNumToString [taskA, taskB])) = [''Low'', ''High'']
   \<and> map status (parseCSV sampleParseFloat sampleIds sampleNow
        (exportTasksToCSV sampleNumToString [taskA, taskB])) = [''Pending'', ''Completed'']"
proof -
  have ab: "roundTrippable sampleParseFloat sampleNumToString taskA"
    "roundTrippable sampleParseFloat sampleNumToString taskB"
    using sample_roundTrippable by simp_all
  note rt = export_import_roundtrip [OF sample_roundTrippable, of sampleIds sampleNow]
  have f: "length [taskA, taskB] = 2" "map title [taskA, taskB] = [''A'', ''B'']"
    "map revenue [taskA, taskB] = [100, 300]" "map timeTaken [taskA, taskB] = [4, 2]"
    "map priority [taskA, taskB] = [''Low'', ''High'']"
    "map status [taskA, taskB] = [''Pending'', ''Completed'']"
    by (simp_all add: taskA_def taskB_def)
  show ?thesis
    using ab rt unfolding f by blast
qed

end
